theory Spec2Isabelle
  imports Complex_Main "HOL-Library.Log_Nat"
begin

section \<open>Python values and built-ins used by app.py\<close>

text \<open>
  A Python \<open>str\<close> is modelled as a \<^typ>\<open>string\<close> in which every \<^typ>\<open>char\<close> is one
  code point of the range 0..255 (ASCII and Latin-1). Code points above 255 are outside the
  model.
\<close>

datatype pyexn =
    ValueError string
  | OverflowError string
  | TypeError string
  | KeyError string
  | HTTPException string
  | Exception string

text \<open>\<open>str(e)\<close> of an exception built from one message.\<close>

fun exn_str :: "pyexn \<Rightarrow> string" where
  "exn_str (ValueError m) = m"
| "exn_str (OverflowError m) = m"
| "exn_str (TypeError m) = m"
| "exn_str (KeyError m) = m"
| "exn_str (HTTPException m) = m"
| "exn_str (Exception m) = m"

text \<open>
  The elements of the \<open>data\<close> array: the JSON scalars as Python values. A float is held
  as the text \<open>str()\<close> prints for it (\<open>1.5\<close>, \<open>1e+20\<close>, \<open>nan\<close>), the only thing
  \<open>process_array\<close> reads of it.
\<close>

datatype scalar =
    SNone
  | SBool bool
  | SInt int
  | SFloat string
  | SStr string

subsection \<open>\<open>str()\<close> of an int and of a scalar\<close>

definition digit_char :: "int \<Rightarrow> char" where
  "digit_char d = char_of (48 + d)"

function str_digits :: "int \<Rightarrow> string" where
  "str_digits n =
     (if n < 10 then [digit_char n] else str_digits (n div 10) @ [digit_char (n mod 10)])"
  by pat_completeness auto
termination
  by (relation "measure nat") auto

definition str_int :: "int \<Rightarrow> string" where
  "str_int i = (if i < 0 then CHR ''-'' # str_digits (- i) else str_digits i)"

fun py_str :: "scalar \<Rightarrow> string" where
  "py_str SNone = ''None''"
| "py_str (SBool b) = (if b then ''True'' else ''False'')"
| "py_str (SInt i) = str_int i"
| "py_str (SFloat t) = t"
| "py_str (SStr s) = s"

subsection \<open>\<open>str.isdigit\<close>, \<open>str.replace\<close>, the regular expression, \<open>upper\<close> and \<open>lower\<close>\<close>

text \<open>The code point of a character, Python's \<open>ord\<close>.\<close>

definition ord :: "char \<Rightarrow> int" where
  "ord c = of_char c"

definition is_ascii_digit :: "char \<Rightarrow> bool" where
  "is_ascii_digit c = (48 \<le> ord c \<and> ord c \<le> 57)"

text \<open>
  The characters of the range 0..255 that \<open>str.isdigit\<close> accepts: the ASCII digits and
  the superscripts two, three and one (U+00B2, U+00B3, U+00B9).
\<close>

definition isdigit_char :: "char \<Rightarrow> bool" where
  "isdigit_char c = (is_ascii_digit c \<or> c = CHR 0xB2 \<or> c = CHR 0xB3 \<or> c = CHR 0xB9)"

text \<open>\<open>s.isdigit()\<close>: every character is a digit and there is at least one.\<close>

definition isdigit :: "string \<Rightarrow> bool" where
  "isdigit s = (s \<noteq> [] \<and> list_all isdigit_char s)"

text \<open>\<open>s.replace(c, '')\<close> for a one-character \<open>c\<close>: every occurrence is removed.\<close>

definition remove_char :: "char \<Rightarrow> string \<Rightarrow> string" where
  "remove_char c s = filter (\<lambda>x. x \<noteq> c) s"

text \<open>The guard of line 24: \<open>item_str.replace('-', '').replace('.', '').isdigit()\<close>.\<close>

definition is_number_token :: "string \<Rightarrow> bool" where
  "is_number_token s = isdigit (remove_char CHR ''.'' (remove_char CHR ''-'' s))"

definition is_ascii_letter :: "char \<Rightarrow> bool" where
  "is_ascii_letter c = ((97 \<le> ord c \<and> ord c \<le> 122) \<or> (65 \<le> ord c \<and> ord c \<le> 90))"

text \<open>
  \<open>re.match(r'^[a-zA-Z]+$', s)\<close>. Without the MULTILINE flag \<open>$\<close> matches at the end of
  the string and also just before a newline that ends the string, so one trailing newline
  after the letters is accepted.
\<close>

definition letters_only :: "string \<Rightarrow> bool" where
  "letters_only s = (s \<noteq> [] \<and> list_all is_ascii_letter s)"

definition re_match_alpha :: "string \<Rightarrow> bool" where
  "re_match_alpha s =
     (letters_only s \<or> (s \<noteq> [] \<and> last s = CHR 0x0A \<and> letters_only (butlast s)))"

text \<open>
  \<open>str.upper\<close> and \<open>str.lower\<close>, character by character. \<open>process_array\<close> applies them
  only to tokens the regular expression matched, that is to ASCII letters and the newline,
  where they act as follows.
\<close>

definition upper_char :: "char \<Rightarrow> char" where
  "upper_char c =
     (if 97 \<le> ord c \<and> ord c \<le> 122 then char_of (ord c - 32) else c)"

definition lower_char :: "char \<Rightarrow> char" where
  "lower_char c =
     (if 65 \<le> ord c \<and> ord c \<le> 90 then char_of (ord c + 32) else c)"

definition upper :: "string \<Rightarrow> string" where
  "upper s = map upper_char s"

subsection \<open>\<open>float()\<close> of a string and \<open>int()\<close> of a float\<close>

text \<open>
  A binary64 value: \<open>Finite m e\<close> is \<open>m * 2 ^ e\<close> (the sign is the sign of \<open>m\<close>;
  minus zero is \<open>Finite 0 e\<close>, which \<open>int()\<close> does not tell from zero).
\<close>

datatype pyfloat = Finite int int | Infinity bool

text \<open>Rounding a quotient of non-negative integers to the nearest integer, ties to even.\<close>

definition round_half_even :: "int \<Rightarrow> int \<Rightarrow> int" where
  "round_half_even a b =
     (let q = a div b; r = a mod b
      in if 2 * r < b then q else if b < 2 * r then q + 1 else if even q then q else q + 1)"

text \<open>\<open>2 ^ e \<le> a / b\<close> for an integer \<open>e\<close> of either sign.\<close>

definition ge_pow2 :: "int \<Rightarrow> int \<Rightarrow> int \<Rightarrow> bool" where
  "ge_pow2 a b e = (if 0 \<le> e then b * 2 ^ nat e \<le> a else b \<le> a * 2 ^ nat (- e))"

text \<open>The binary exponent of \<open>a / b\<close> (for \<open>a, b > 0\<close>): \<open>2 ^ e \<le> a / b < 2 ^ (e + 1)\<close>.\<close>

definition binary_exponent :: "int \<Rightarrow> int \<Rightarrow> int" where
  "binary_exponent a b =
     (let e = bitlen a - bitlen b in if ge_pow2 a b e then e else e - 1)"

text \<open>
  The correctly rounded binary64 value of \<open>a / b\<close> for \<open>a \<ge> 0\<close> and \<open>b > 0\<close> (round to
  nearest, ties to even, 53 significant bits, least exponent -1074 for subnormals, overflow
  to infinity), with the sign \<open>neg\<close>.
\<close>

definition round_binary64 :: "bool \<Rightarrow> int \<Rightarrow> int \<Rightarrow> pyfloat" where
  "round_binary64 neg a b =
     (if a = 0 then Finite 0 0
      else
        let e = max (binary_exponent a b) (- 1022);
            s = e - 52;
            m = (if 0 \<le> s then round_half_even a (b * 2 ^ nat s)
                 else round_half_even (a * 2 ^ nat (- s)) b)
        in if 0 \<le> s \<and> 2 ^ 1024 \<le> m * 2 ^ nat s then Infinity neg
           else Finite (if neg then - m else m) s)"

definition digit_val :: "char \<Rightarrow> int" where
  "digit_val c = ord c - 48"

definition digits_val :: "string \<Rightarrow> int" where
  "digits_val ds = foldl (\<lambda>n c. 10 * n + digit_val c) 0 ds"

text \<open>
  The shape of a float literal made of digits, \<open>-\<close> and \<open>.\<close>: an optional \<open>-\<close>, then
  digits with an optional point and optional digits, or a point and digits. The result is
  the sign, the digits before the point and the digits after it.
\<close>

definition float_literal :: "string \<Rightarrow> (bool \<times> string \<times> string) option" where
  "float_literal s =
     (let neg = (s \<noteq> [] \<and> hd s = CHR ''-'');
          body = (if neg then tl s else s);
          ip = takeWhile is_ascii_digit body;
          rest = dropWhile is_ascii_digit body
      in case rest of
           [] \<Rightarrow> if ip \<noteq> [] then Some (neg, ip, []) else None
         | c # fp \<Rightarrow>
             if c = CHR ''.'' \<and> list_all is_ascii_digit fp \<and> (ip \<noteq> [] \<or> fp \<noteq> [])
             then Some (neg, ip, fp) else None)"

text \<open>
  \<open>float(s)\<close>. The other forms \<open>float\<close> accepts (surrounding white space, \<open>+\<close>, an
  exponent, underscores, \<open>inf\<close>, \<open>nan\<close>) all contain a character the guard of line 24
  rejects, so on the strings \<open>process_array\<close> passes to it \<open>float\<close> is this function.
  The message quotes \<open>repr(s)\<close>, which for such a string is the string in single quotes.
\<close>

definition py_float :: "string \<Rightarrow> pyexn + pyfloat" where
  "py_float s =
     (case float_literal s of
        None \<Rightarrow>
          Inl (ValueError (''could not convert string to float: '' @ [CHR 0x27] @ s @ [CHR 0x27]))
      | Some (neg, ip, fp) \<Rightarrow> Inr (round_binary64 neg (digits_val (ip @ fp)) (10 ^ length fp)))"

text \<open>\<open>int(x)\<close> of a float: truncation toward zero; infinity raises.\<close>

definition py_int :: "pyfloat \<Rightarrow> pyexn + int" where
  "py_int x =
     (case x of
        Infinity _ \<Rightarrow> Inl (OverflowError ''cannot convert float infinity to integer'')
      | Finite m e \<Rightarrow>
          Inr (if 0 \<le> e then m * 2 ^ nat e
               else if 0 \<le> m then m div 2 ^ nat (- e)
               else - ((- m) div 2 ^ nat (- e))))"

text \<open>\<open>int(float(s))\<close>.\<close>

definition int_float :: "string \<Rightarrow> pyexn + int" where
  "int_float s = (case py_float s of Inl e \<Rightarrow> Inl e | Inr x \<Rightarrow> py_int x)"

section \<open>\<open>process_array\<close> (app.py, lines 8 to 62)\<close>

text \<open>The local variables that the loop of lines 20 to 37 updates.\<close>

record locals =
  odd_acc :: "string list"
  even_acc :: "string list"
  alphabets_acc :: "string list"
  special_acc :: "string list"
  numbers_sum :: int
  alphabet_strings :: "string list"

text \<open>The dictionary returned at lines 53 to 60; \<open>sum_str\<close> is its key \<open>sum\<close>.\<close>

record result =
  odd_numbers :: "string list"
  even_numbers :: "string list"
  alphabets :: "string list"
  special_characters :: "string list"
  sum_str :: string
  concat_string :: string

definition initial_locals :: locals where
  "initial_locals =
     \<lparr>odd_acc = [], even_acc = [], alphabets_acc = [], special_acc = [],
      numbers_sum = 0, alphabet_strings = []\<rparr>"

text \<open>The body of the loop, lines 21 to 37, for one item.\<close>

definition classify_item :: "locals \<Rightarrow> scalar \<Rightarrow> pyexn + locals" where
  "classify_item st item =
     (let item_str = py_str item
      in if is_number_token item_str then
           (case int_float item_str of
              Inl e \<Rightarrow> Inl e
            | Inr num \<Rightarrow>
                Inr ((if num mod 2 = 0
                      then st\<lparr>even_acc := even_acc st @ [str_int num]\<rparr>
                      else st\<lparr>odd_acc := odd_acc st @ [str_int num]\<rparr>)
                     \<lparr>numbers_sum := numbers_sum st + num\<rparr>))
         else if re_match_alpha item_str then
           Inr (st\<lparr>alphabets_acc := alphabets_acc st @ [upper item_str],
                   alphabet_strings := alphabet_strings st @ [item_str]\<rparr>)
         else Inr (st\<lparr>special_acc := special_acc st @ [item_str]\<rparr>))"

text \<open>The loop over \<open>data_array\<close>: it stops at the first item that raises.\<close>

fun classify_loop :: "scalar list \<Rightarrow> locals \<Rightarrow> pyexn + locals" where
  "classify_loop [] st = Inr st"
| "classify_loop (item # rest) st =
     (case classify_item st item of Inl e \<Rightarrow> Inl e | Inr st' \<Rightarrow> classify_loop rest st')"

text \<open>
  The loop of lines 47 to 51 over \<open>enumerate(reversed_chars)\<close>: \<open>i\<close> is the index,
  \<open>acc\<close> the \<open>concat_string\<close> built so far.
\<close>

fun alternating_caps :: "nat \<Rightarrow> string \<Rightarrow> string \<Rightarrow> string" where
  "alternating_caps i [] acc = acc"
| "alternating_caps i (c # cs) acc =
     alternating_caps (Suc i) cs
       (acc @ [if i mod 2 = 0 then upper_char c else lower_char c])"

text \<open>Lines 40 to 51.\<close>

definition make_concat_string :: "string list \<Rightarrow> string" where
  "make_concat_string strs =
     (if strs \<noteq> [] then
        (let all_chars = concat strs; reversed_chars = rev all_chars
         in alternating_caps 0 reversed_chars [])
      else [])"

text \<open>
  The whole function. Whatever is raised inside the \<open>try\<close> is raised again as an
  \<open>Exception\<close> whose message is \<open>Error processing array: \<close> followed by \<open>str(e)\<close>.
\<close>

definition process_array :: "scalar list \<Rightarrow> pyexn + result" where
  "process_array data_array =
     (case classify_loop data_array initial_locals of
        Inl e \<Rightarrow> Inl (Exception (''Error processing array: '' @ exn_str e))
      | Inr st \<Rightarrow>
          Inr \<lparr>odd_numbers = odd_acc st,
               even_numbers = even_acc st,
               alphabets = alphabets_acc st,
               special_characters = special_acc st,
               sum_str = str_int (numbers_sum st),
               concat_string = make_concat_string (alphabet_strings st)\<rparr>)"

section \<open>The endpoint \<open>bfhl\<close> (app.py, lines 64 to 108)\<close>

text \<open>
  What \<open>request.get_json()\<close> can return: a scalar (\<open>None\<close> included), a list or a
  dictionary. Lists hold scalars, as the \<open>data\<close> array does; a dictionary is held as its
  items, looked up by key.
\<close>

datatype jvalue =
    JScalar scalar
  | JList "scalar list"
  | JDict "(string \<times> jvalue) list"

text \<open>The JSON body \<open>jsonify\<close> is given: the error object or the success object.\<close>

datatype response =
    Failure string
  | Success string string string result

fun is_success :: "response \<Rightarrow> bool" where
  "is_success (Failure err) = False"
| "is_success (Success user_id email roll_number processed_data) = True"

fun error_field :: "response \<Rightarrow> string option" where
  "error_field (Failure err) = Some err"
| "error_field (Success user_id email roll_number processed_data) = None"

text \<open>Truth value of a Python object, as \<open>not request_data\<close> tests it.\<close>

fun truthy :: "jvalue \<Rightarrow> bool" where
  "truthy (JScalar SNone) = False"
| "truthy (JScalar (SBool b)) = b"
| "truthy (JScalar (SInt i)) = (i \<noteq> 0)"
| "truthy (JScalar (SFloat t)) = (t \<noteq> ''0.0'' \<and> t \<noteq> ''-0.0'')"
| "truthy (JScalar (SStr s)) = (s \<noteq> [])"
| "truthy (JList xs) = (xs \<noteq> [])"
| "truthy (JDict kvs) = (kvs \<noteq> [])"

text \<open>\<open>sub in s\<close> for two strings: \<open>sub\<close> occurs in \<open>s\<close> as a contiguous part.\<close>

fun is_prefix :: "string \<Rightarrow> string \<Rightarrow> bool" where
  "is_prefix [] s = True"
| "is_prefix (c # cs) [] = False"
| "is_prefix (c # cs) (d # ds) = (c = d \<and> is_prefix cs ds)"

fun substring_in :: "string \<Rightarrow> string \<Rightarrow> bool" where
  "substring_in sub [] = (sub = [])"
| "substring_in sub (d # ds) = (is_prefix sub (d # ds) \<or> substring_in sub ds)"

text \<open>The name of the type of a scalar, in quotes, as error messages print it.\<close>

fun type_name :: "scalar \<Rightarrow> string" where
  "type_name SNone = CHR 0x27 # ''NoneType'' @ [CHR 0x27]"
| "type_name (SBool b) = CHR 0x27 # ''bool'' @ [CHR 0x27]"
| "type_name (SInt i) = CHR 0x27 # ''int'' @ [CHR 0x27]"
| "type_name (SFloat t) = CHR 0x27 # ''float'' @ [CHR 0x27]"
| "type_name (SStr s) = CHR 0x27 # ''str'' @ [CHR 0x27]"

text \<open>
  \<open>'data' in request_data\<close>: a key of a dictionary, an element of a list, a part of a
  string; any other object is not a container and the test raises \<open>TypeError\<close>.
\<close>

fun contains_data :: "jvalue \<Rightarrow> pyexn + bool" where
  "contains_data (JDict kvs) = Inr (''data'' \<in> set (map fst kvs))"
| "contains_data (JList xs) = Inr (SStr ''data'' \<in> set xs)"
| "contains_data (JScalar (SStr s)) = Inr (substring_in ''data'' s)"
| "contains_data (JScalar x) =
     Inl (TypeError (''argument of type '' @ type_name x @ '' is not iterable''))"

text \<open>\<open>request_data['data']\<close>.\<close>

fun get_data :: "jvalue \<Rightarrow> pyexn + jvalue" where
  "get_data (JDict kvs) =
     (case map_of kvs ''data'' of
        None \<Rightarrow> Inl (KeyError (CHR 0x27 # ''data'' @ [CHR 0x27]))
      | Some v \<Rightarrow> Inr v)"
| "get_data (JList xs) =
     Inl (TypeError ''list indices must be integers or slices, not str'')"
| "get_data (JScalar (SStr s)) =
     Inl (TypeError (''string indices must be integers, not '' @ type_name (SStr s)))"
| "get_data (JScalar x) = Inl (TypeError (type_name x @ '' object is not subscriptable''))"

text \<open>
  The endpoint. Its inputs are what \<open>request.get_json()\<close> does (it raises, or returns
  the parsed body), the text of \<open>datetime.now().strftime("%d%m%Y")\<close>, and the function
  called at line 88; the result is the JSON body and the status code. \<open>bfhl\<close> itself calls
  \<open>process_array\<close>.
\<close>

definition bfhl_with ::
  "(scalar list \<Rightarrow> pyexn + result) \<Rightarrow> string \<Rightarrow> pyexn + jvalue \<Rightarrow> response \<times> nat"
where
  "bfhl_with process current_date got =
     (case got of
        Inl e \<Rightarrow> (Failure (exn_str e), 500)
      | Inr request_data \<Rightarrow>
          if \<not> truthy request_data
          then (Failure ''Missing 'data' field in request'', 400)
          else
            (case contains_data request_data of
               Inl e \<Rightarrow> (Failure (exn_str e), 500)
             | Inr False \<Rightarrow> (Failure ''Missing 'data' field in request'', 400)
             | Inr True \<Rightarrow>
                 (case get_data request_data of
                    Inl e \<Rightarrow> (Failure (exn_str e), 500)
                  | Inr (JList data_array) \<Rightarrow>
                      (case process data_array of
                         Inl e \<Rightarrow> (Failure (exn_str e), 500)
                       | Inr processed_data \<Rightarrow>
                           (Success (''john_doe_'' @ current_date) ''john@xyz.com''
                              ''ABCD123'' processed_data, 200))
                  | Inr other \<Rightarrow> (Failure (CHR 0x27 # ''data' must be an array''), 400))))"

definition bfhl :: "string \<Rightarrow> pyexn + jvalue \<Rightarrow> response \<times> nat" where
  "bfhl = bfhl_with process_array"

text \<open>\<open>isinstance(data_array, list)\<close>.\<close>

fun isinstance_list :: "jvalue \<Rightarrow> bool" where
  "isinstance_list (JList xs) = True"
| "isinstance_list (JScalar x) = False"
| "isinstance_list (JDict kvs) = False"

text \<open>
  The array a request carries, if it carries one: the parsed body is a dictionary whose
  key \<open>data\<close> holds a list.
\<close>

definition data_array_of :: "pyexn + jvalue \<Rightarrow> scalar list option" where
  "data_array_of got =
     (case got of
        Inl e \<Rightarrow> None
      | Inr (JDict kvs) \<Rightarrow>
          (case map_of kvs ''data'' of Some (JList data_array) \<Rightarrow> Some data_array | _ \<Rightarrow> None)
      | Inr other \<Rightarrow> None)"

section \<open>The classification and the concatenation, as the specification words them\<close>

text \<open>The tokens of an input list: its items after \<open>str()\<close>.\<close>

definition tokens :: "scalar list \<Rightarrow> string list" where
  "tokens data_array = map py_str data_array"

text \<open>
  The three rules, the first matching one wins: numeric is \<^const>\<open>is_number_token\<close>,
  alphabetic is the regular expression on a token that is not numeric, special is the rest.
\<close>

definition is_alphabet_token :: "string \<Rightarrow> bool" where
  "is_alphabet_token s = (\<not> is_number_token s \<and> re_match_alpha s)"

definition is_special_token :: "string \<Rightarrow> bool" where
  "is_special_token s = (\<not> is_number_token s \<and> \<not> re_match_alpha s)"

text \<open>
  Step c of the specification: the character at an even index (from 0) in upper case, the
  character at an odd index in lower case.
\<close>

definition alternate_case :: "string \<Rightarrow> string" where
  "alternate_case s =
     map (\<lambda>(i, c). if even i then upper_char c else lower_char c) (enumerate 0 s)"



section \<open>The loop: what it computes and when it returns\<close>

lemma classify_item_cases:
  "classify_item st item =
     (let t = py_str item in
      if is_number_token t then
        (case int_float t of Inl e \<Rightarrow> Inl e
         | Inr n \<Rightarrow> Inr (st\<lparr>odd_acc := odd_acc st @ map str_int (filter (\<lambda>n. n mod 2 \<noteq> 0) [n]),
                            even_acc := even_acc st @ map str_int (filter (\<lambda>n. n mod 2 = 0) [n]),
                            numbers_sum := numbers_sum st + n\<rparr>))
      else if re_match_alpha t then
        Inr (st\<lparr>alphabets_acc := alphabets_acc st @ [upper t],
                alphabet_strings := alphabet_strings st @ [t]\<rparr>)
      else Inr (st\<lparr>special_acc := special_acc st @ [t]\<rparr>))"
  by (simp add: classify_item_def Let_def split: sum.splits)

lemma classify_loop_Inr:
  "classify_loop xs st = Inr st' \<Longrightarrow>
   \<exists>ns. map int_float (filter is_number_token (tokens xs)) = map Inr ns \<and>
        odd_acc st' = odd_acc st @ map str_int (filter (\<lambda>n. n mod 2 \<noteq> 0) ns) \<and>
        even_acc st' = even_acc st @ map str_int (filter (\<lambda>n. n mod 2 = 0) ns) \<and>
        alphabets_acc st' = alphabets_acc st @ map upper (filter is_alphabet_token (tokens xs)) \<and>
        special_acc st' = special_acc st @ filter is_special_token (tokens xs) \<and>
        numbers_sum st' = numbers_sum st + sum_list ns \<and>
        alphabet_strings st' = alphabet_strings st @ filter is_alphabet_token (tokens xs)"
proof (induction xs arbitrary: st)
  case Nil
  then show ?case by (simp add: tokens_def)
next
  case (Cons x xs)
  from Cons.prems obtain st1 where s1: "classify_item st x = Inr st1"
    and l1: "classify_loop xs st1 = Inr st'"
    by (auto split: sum.splits)
  from Cons.IH[OF l1] obtain ns where
    ns: "map int_float (filter is_number_token (tokens xs)) = map Inr ns"
    and o: "odd_acc st' = odd_acc st1 @ map str_int (filter (\<lambda>n. n mod 2 \<noteq> 0) ns)"
    and e: "even_acc st' = even_acc st1 @ map str_int (filter (\<lambda>n. n mod 2 = 0) ns)"
    and a: "alphabets_acc st' = alphabets_acc st1 @ map upper (filter is_alphabet_token (tokens xs))"
    and sp: "special_acc st' = special_acc st1 @ filter is_special_token (tokens xs)"
    and su: "numbers_sum st' = numbers_sum st1 + sum_list ns"
    and al: "alphabet_strings st' = alphabet_strings st1 @ filter is_alphabet_token (tokens xs)"
    by blast
  show ?case
  proof (cases "is_number_token (py_str x)")
    case True
    with s1 obtain n where n: "int_float (py_str x) = Inr n"
      and st1: "st1 = st\<lparr>odd_acc := odd_acc st @ map str_int (filter (\<lambda>n. n mod 2 \<noteq> 0) [n]),
                            even_acc := even_acc st @ map str_int (filter (\<lambda>n. n mod 2 = 0) [n]),
                            numbers_sum := numbers_sum st + n\<rparr>"
      by (auto simp: classify_item_cases Let_def split: sum.splits)
    have "map int_float (filter is_number_token (tokens (x # xs))) = map Inr (n # ns)"
      using True n ns by (simp add: tokens_def)
    moreover have "\<not> is_alphabet_token (py_str x)" "\<not> is_special_token (py_str x)"
      using True by (simp_all add: is_alphabet_token_def is_special_token_def)
    ultimately show ?thesis
      using o e a sp su al st1
      by (intro exI[of _ "n # ns"]) (simp add: tokens_def)
  next
    case False
    note notnum = this
    show ?thesis
    proof (cases "re_match_alpha (py_str x)")
      case True
      with notnum s1 have st1: "st1 = st\<lparr>alphabets_acc := alphabets_acc st @ [upper (py_str x)],
                alphabet_strings := alphabet_strings st @ [py_str x]\<rparr>"
        by (auto simp: classify_item_cases Let_def)
      have "is_alphabet_token (py_str x)" "\<not> is_special_token (py_str x)"
        using True notnum by (simp_all add: is_alphabet_token_def is_special_token_def)
      then show ?thesis
        using o e a sp su al st1 ns notnum
        by (intro exI[of _ ns]) (simp add: tokens_def)
    next
      case False
      with notnum s1 have st1: "st1 = st\<lparr>special_acc := special_acc st @ [py_str x]\<rparr>"
        by (auto simp: classify_item_cases Let_def)
      have "\<not> is_alphabet_token (py_str x)" "is_special_token (py_str x)"
        using False notnum by (simp_all add: is_alphabet_token_def is_special_token_def)
      then show ?thesis
        using o e a sp su al st1 ns notnum
        by (intro exI[of _ ns]) (simp add: tokens_def)
    qed
  qed
qed

lemma classify_item_returns:
  "(\<exists>st'. classify_item st x = Inr st') \<longleftrightarrow>
   (is_number_token (py_str x) \<longrightarrow> (\<exists>n. int_float (py_str x) = Inr n))"
  by (auto simp: classify_item_cases Let_def split: sum.splits)

lemma classify_loop_returns:
  "(\<exists>st'. classify_loop xs st = Inr st') \<longleftrightarrow>
   (\<forall>x \<in> set xs. is_number_token (py_str x) \<longrightarrow> (\<exists>n. int_float (py_str x) = Inr n))"
proof (induction xs arbitrary: st)
  case Nil
  show ?case by simp
next
  case (Cons x xs)
  show ?case
  proof (cases "classify_item st x")
    case (Inl e)
    then have "\<not> (\<exists>st'. classify_item st x = Inr st')" by simp
    then have "\<not> (is_number_token (py_str x) \<longrightarrow> (\<exists>n. int_float (py_str x) = Inr n))"
      using classify_item_returns[of st x] by blast
    with Inl show ?thesis by auto
  next
    case (Inr st1)
    then have "\<exists>st'. classify_item st x = Inr st'" by blast
    then have "is_number_token (py_str x) \<longrightarrow> (\<exists>n. int_float (py_str x) = Inr n)"
      using classify_item_returns[of st x] by blast
    with Inr Cons.IH[of st1] show ?thesis by auto
  qed
qed

section \<open>\<open>process_array\<close>: its result, and the concatenation loop\<close>

lemma process_array_Inr:
  assumes "process_array xs = Inr r"
  shows "\<exists>ns. map int_float (filter is_number_token (tokens xs)) = map Inr ns \<and>
        odd_numbers r = map str_int (filter (\<lambda>n. n mod 2 \<noteq> 0) ns) \<and>
        even_numbers r = map str_int (filter (\<lambda>n. n mod 2 = 0) ns) \<and>
        alphabets r = map upper (filter is_alphabet_token (tokens xs)) \<and>
        special_characters r = filter is_special_token (tokens xs) \<and>
        sum_str r = str_int (sum_list ns) \<and>
        concat_string r = make_concat_string (filter is_alphabet_token (tokens xs))"
proof -
  from assms obtain st where l: "classify_loop xs initial_locals = Inr st"
    and r: "r = \<lparr>odd_numbers = odd_acc st, even_numbers = even_acc st,
               alphabets = alphabets_acc st, special_characters = special_acc st,
               sum_str = str_int (numbers_sum st),
               concat_string = make_concat_string (alphabet_strings st)\<rparr>"
    by (auto simp: process_array_def split: sum.splits)
  from classify_loop_Inr[OF l] obtain ns where
    "map int_float (filter is_number_token (tokens xs)) = map Inr ns"
    "odd_acc st = map str_int (filter (\<lambda>n. n mod 2 \<noteq> 0) ns)"
    "even_acc st = map str_int (filter (\<lambda>n. n mod 2 = 0) ns)"
    "alphabets_acc st = map upper (filter is_alphabet_token (tokens xs))"
    "special_acc st = filter is_special_token (tokens xs)"
    "numbers_sum st = sum_list ns"
    "alphabet_strings st = filter is_alphabet_token (tokens xs)"
    by (auto simp: initial_locals_def)
  with r show ?thesis by (intro exI[of _ ns]) simp
qed

lemma process_array_returns:
  "(\<exists>r. process_array xs = Inr r) \<longleftrightarrow>
   (\<forall>x \<in> set xs. is_number_token (py_str x) \<longrightarrow> (\<exists>n. int_float (py_str x) = Inr n))"
proof -
  have "(\<exists>r. process_array xs = Inr r) \<longleftrightarrow> (\<exists>st. classify_loop xs initial_locals = Inr st)"
    by (auto simp: process_array_def split: sum.splits)
  then show ?thesis by (simp only: classify_loop_returns)
qed

lemma process_array_raises:
  "process_array xs = Inl e \<Longrightarrow> \<exists>m. e = Exception (''Error processing array: '' @ m)"
  by (auto simp: process_array_def split: sum.splits)

lemma alternating_caps_eq:
  "alternating_caps i cs acc =
   acc @ map (\<lambda>(j, c). if even j then upper_char c else lower_char c) (enumerate i cs)"
  by (induction cs arbitrary: i acc) (simp_all add: even_iff_mod_2_eq_zero)

lemma make_concat_string_eq: "make_concat_string strs = alternate_case (rev (concat strs))"
  by (simp add: make_concat_string_def alternate_case_def alternating_caps_eq Let_def)

lemma three_way_length:
  "length (filter is_number_token ts) + length (filter is_alphabet_token ts)
     + length (filter is_special_token ts) = length ts"
  by (induction ts) (auto simp: is_alphabet_token_def is_special_token_def)

lemma parity_split_length:
  "length (filter (\<lambda>n::int. n mod 2 \<noteq> 0) ns) + length (filter (\<lambda>n. n mod 2 = 0) ns) = length ns"
  by (induction ns) auto

section \<open>The numeric check, and tokens that \<open>float\<close> rejects\<close>

lemma not_digit_minus_point:
  "\<not> isdigit_char CHR ''-''" "\<not> isdigit_char CHR ''.''"
  by (simp_all add: isdigit_char_def is_ascii_digit_def ord_def)

lemma is_number_token_iff:
  "is_number_token s \<longleftrightarrow>
     (\<exists>c \<in> set s. isdigit_char c) \<and>
     (\<forall>c \<in> set s. isdigit_char c \<or> c = CHR ''-'' \<or> c = CHR ''.'')"
proof -
  define f where "f = remove_char CHR ''.'' (remove_char CHR ''-'' s)"
  have setf: "set f = {c \<in> set s. c \<noteq> CHR ''-'' \<and> c \<noteq> CHR ''.''}"
    by (auto simp: f_def remove_char_def)
  have "is_number_token s \<longleftrightarrow> set f \<noteq> {} \<and> (\<forall>c \<in> set f. isdigit_char c)"
    by (simp add: is_number_token_def isdigit_def f_def list_all_iff)
  also have "\<dots> \<longleftrightarrow> (\<exists>c \<in> set s. isdigit_char c) \<and>
     (\<forall>c \<in> set s. isdigit_char c \<or> c = CHR ''-'' \<or> c = CHR ''.'')"
    unfolding setf using not_digit_minus_point by blast
  finally show ?thesis .
qed

lemma double_minus_rejected:
  "is_number_token ''--1''"
  "int_float ''--1'' =
     Inl (ValueError (''could not convert string to float: '--1'' @ [CHR 0x27]))"
  by code_simp+

lemma two_points_rejected:
  "is_number_token ''1.2.3''"
  "int_float ''1.2.3'' =
     Inl (ValueError (''could not convert string to float: '1.2.3'' @ [CHR 0x27]))"
  by code_simp+

lemma failing_token_raises:
  assumes "is_number_token t" and "int_float t = Inl err"
  shows "\<exists>e. process_array (pre @ SStr t # post) = Inl e"
proof -
  have "\<not> (\<exists>r. process_array (pre @ SStr t # post) = Inr r)"
    unfolding process_array_returns using assms by auto
  then show ?thesis by (cases "process_array (pre @ SStr t # post)") auto
qed

section \<open>Adding a token that is not numeric\<close>

lemma insert_non_numeric:
  assumes nn: "\<not> is_number_token (py_str x)" and r: "process_array (xs @ ys) = Inr r"
  shows "\<exists>r'. process_array (xs @ x # ys) = Inr r' \<and>
           odd_numbers r' = odd_numbers r \<and> even_numbers r' = even_numbers r \<and>
           sum_str r' = sum_str r \<and>
           alphabets r' = map upper (filter is_alphabet_token (tokens (xs @ x # ys))) \<and>
           special_characters r' = filter is_special_token (tokens (xs @ x # ys)) \<and>
           concat_string r' = make_concat_string (filter is_alphabet_token (tokens (xs @ x # ys)))"
proof -
  from r have "\<exists>r. process_array (xs @ ys) = Inr r" by blast
  then have "\<forall>y \<in> set (xs @ ys). is_number_token (py_str y) \<longrightarrow> (\<exists>n. int_float (py_str y) = Inr n)"
    by (simp only: process_array_returns)
  with nn have "\<forall>y \<in> set (xs @ x # ys). is_number_token (py_str y) \<longrightarrow> (\<exists>n. int_float (py_str y) = Inr n)"
    by auto
  then have "\<exists>r'. process_array (xs @ x # ys) = Inr r'"
    by (simp only: process_array_returns)
  then obtain r' where r': "process_array (xs @ x # ys) = Inr r'" by blast
  have same: "filter is_number_token (tokens (xs @ x # ys)) = filter is_number_token (tokens (xs @ ys))"
    using nn by (simp add: tokens_def)
  from process_array_Inr[OF r] obtain ns where
    ns: "map int_float (filter is_number_token (tokens (xs @ ys))) = map Inr ns"
    and f: "odd_numbers r = map str_int (filter (\<lambda>n. n mod 2 \<noteq> 0) ns)"
       "even_numbers r = map str_int (filter (\<lambda>n. n mod 2 = 0) ns)"
       "sum_str r = str_int (sum_list ns)"
    by blast
  from process_array_Inr[OF r'] obtain ns' where
    ns': "map int_float (filter is_number_token (tokens (xs @ x # ys))) = map Inr ns'"
    and f': "odd_numbers r' = map str_int (filter (\<lambda>n. n mod 2 \<noteq> 0) ns')"
       "even_numbers r' = map str_int (filter (\<lambda>n. n mod 2 = 0) ns')"
       "sum_str r' = str_int (sum_list ns')"
       "alphabets r' = map upper (filter is_alphabet_token (tokens (xs @ x # ys)))"
       "special_characters r' = filter is_special_token (tokens (xs @ x # ys))"
       "concat_string r' = make_concat_string (filter is_alphabet_token (tokens (xs @ x # ys)))"
    by blast
  from ns ns' same have "map Inr ns' = (map Inr ns :: (pyexn + int) list)" by simp
  then have "ns' = ns" by (simp add: inj_map_eq_map)
  with r' f f' show ?thesis by simp
qed

lemma fallthrough_facts:
  "\<not> is_number_token ''-''" "\<not> is_number_token ''.''" "\<not> is_number_token ''''"
  "\<not> re_match_alpha ''-''" "\<not> re_match_alpha ''.''" "\<not> re_match_alpha ''''"
  by code_simp+

section \<open>\<open>int(float(s))\<close> of a token with a leading minus sign\<close>


























section \<open>The claims\<close>

text \<open>
  C3. For the input list a, 1, 334, 4, R, $ (six strings) \<open>process_array\<close> returns
  odd_numbers 1; even_numbers 334, 4; alphabets A, R; special_characters $; sum 339 and
  concat_string Ra.
\<close>

theorem scenario_1:
  "process_array [SStr ''a'', SStr ''1'', SStr ''334'', SStr ''4'', SStr ''R'', SStr ''$''] =
     Inr \<lparr>odd_numbers = [''1''], even_numbers = [''334'', ''4''], alphabets = [''A'', ''R''],
          special_characters = [''$''], sum_str = ''339'', concat_string = ''Ra''\<rparr>"
  by code_simp

text \<open>
  C9. There is an input list, every element of which passes the numeric check, on which
  \<open>process_array\<close> returns no result: for the one-element lists holding \<open>--1\<close> and
  \<open>1.2.3\<close> the token passes the check, \<open>float\<close> raises \<open>ValueError\<close>, and the call
  raises an \<open>Exception\<close> whose message is \<open>Error processing array: \<close> followed by the
  message of the \<open>ValueError\<close>.
\<close>

theorem malformed_numeric_raises:
  "is_number_token ''--1'' \<and>
   py_float ''--1'' =
     Inl (ValueError (''could not convert string to float: '--1'' @ [CHR 0x27])) \<and>
   process_array [SStr ''--1''] =
     Inl (Exception
       (''Error processing array: could not convert string to float: '--1'' @ [CHR 0x27])) \<and>
   is_number_token ''1.2.3'' \<and>
   py_float ''1.2.3'' =
     Inl (ValueError (''could not convert string to float: '1.2.3'' @ [CHR 0x27])) \<and>
   process_array [SStr ''1.2.3''] =
     Inl (Exception
       (''Error processing array: could not convert string to float: '1.2.3'' @ [CHR 0x27]))"
  by code_simp

text \<open>
  C2, as stated, fails. The check removes every \<open>-\<close>, not only a leading one, so
  \<open>1-2\<close> passes it; and a list holding the token \<open>--1\<close> gets no result at all, so the
  token is in no numeric bucket.
\<close>

theorem numeric_bucket_counterexample:
  "is_number_token ''1-2'' \<and>
   process_array [SStr ''a'', SStr ''--1''] =
     Inl (Exception
       (''Error processing array: could not convert string to float: '--1'' @ [CHR 0x27]))"
  by code_simp

text \<open>
  C2, amended. A token passes the numeric check exactly when it has at least one digit
  character and each of its characters is a digit, \<open>-\<close> or \<open>.\<close> (that is, what is left
  after every \<open>-\<close> and every \<open>.\<close> is removed is not empty and is made of digits). The
  tokens \<open>--1\<close> and \<open>1.2.3\<close> pass the check, and on every input list that holds one of
  them \<open>process_array\<close> raises: the token ends up in no bucket.
\<close>

theorem numeric_check_accepts:
  "(is_number_token s \<longleftrightarrow>
      (\<exists>c \<in> set s. isdigit_char c) \<and>
      (\<forall>c \<in> set s. isdigit_char c \<or> c = CHR ''-'' \<or> c = CHR ''.'')) \<and>
   is_number_token ''--1'' \<and> is_number_token ''1.2.3'' \<and>
   (\<exists>e. process_array (pre @ SStr ''--1'' # post) = Inl e) \<and>
   (\<exists>e. process_array (pre @ SStr ''1.2.3'' # post) = Inl e)"
  using is_number_token_iff[of s] double_minus_rejected(1) two_points_rejected(1)
    failing_token_raises[OF double_minus_rejected, of pre post]
    failing_token_raises[OF two_points_rejected, of pre post]
  by blast

text \<open>The token \<open>-3.5\<close> passes the check; a list with \<open>--1\<close> in the middle raises.\<close>

theorem numeric_check_accepts_witness:
  "is_number_token ''-3.5'' \<and>
   (\<exists>e. process_array ([SStr ''a''] @ SStr ''--1'' # [SStr ''b'']) = Inl e)"
proof -
  have "(\<exists>c \<in> set ''-3.5''. isdigit_char c) \<and>
        (\<forall>c \<in> set ''-3.5''. isdigit_char c \<or> c = CHR ''-'' \<or> c = CHR ''.'')"
    by (simp add: isdigit_char_def is_ascii_digit_def ord_def)
  with numeric_check_accepts[of "''-3.5''" "[SStr ''a'']" "[SStr ''b'']"]
  show ?thesis by blast
qed

text \<open>
  C1, as stated, fails: on the list holding the one token \<open>1.2.3\<close> there are no output
  buckets, the call raises.
\<close>

theorem partition_counterexample:
  "process_array [SStr ''1.2.3''] =
     Inl (Exception
       (''Error processing array: could not convert string to float: '1.2.3'' @ [CHR 0x27]))"
  by code_simp

text \<open>
  C1, amended. For every input list on which \<open>process_array\<close> returns a result, each
  token is placed by the first matching rule into exactly one of the four buckets and each
  bucket lists its tokens in input order: with \<open>ns\<close> the values \<open>int(float(t))\<close> of the
  numeric tokens in input order, odd_numbers holds the decimal strings of the odd ones and
  even_numbers those of the even ones; alphabets holds the alphabetic tokens in upper case;
  special_characters holds the remaining tokens unchanged; and the four lengths add up to
  the length of the input.
\<close>

theorem partition_when_returned:
  assumes "process_array xs = Inr r"
  shows "\<exists>ns. map int_float (filter is_number_token (tokens xs)) = map Inr ns \<and>
           odd_numbers r = map str_int (filter (\<lambda>n. n mod 2 \<noteq> 0) ns) \<and>
           even_numbers r = map str_int (filter (\<lambda>n. n mod 2 = 0) ns) \<and>
           alphabets r = map upper (filter is_alphabet_token (tokens xs)) \<and>
           special_characters r = filter is_special_token (tokens xs) \<and>
           length (odd_numbers r) + length (even_numbers r) + length (alphabets r)
             + length (special_characters r) = length xs"
proof -
  from process_array_Inr[OF assms] obtain ns where
    ns: "map int_float (filter is_number_token (tokens xs)) = map Inr ns"
    and o: "odd_numbers r = map str_int (filter (\<lambda>n. n mod 2 \<noteq> 0) ns)"
    and e: "even_numbers r = map str_int (filter (\<lambda>n. n mod 2 = 0) ns)"
    and a: "alphabets r = map upper (filter is_alphabet_token (tokens xs))"
    and s: "special_characters r = filter is_special_token (tokens xs)"
    by blast
  from ns have "length (filter is_number_token (tokens xs)) = length ns"
    by (metis length_map)
  then have "length (odd_numbers r) + length (even_numbers r)
      = length (filter is_number_token (tokens xs))"
    using parity_split_length[of ns] by (simp add: o e)
  then have "length (odd_numbers r) + length (even_numbers r) + length (alphabets r)
             + length (special_characters r) = length xs"
    using three_way_length[of "tokens xs"] by (simp add: a s tokens_def)
  with ns o e a s show ?thesis by blast
qed

text \<open>The theorem at the list a, 1, $.\<close>

theorem partition_when_returned_witness:
  "process_array [SStr ''a'', SStr ''1'', SStr ''$''] =
     Inr \<lparr>odd_numbers = [''1''], even_numbers = [], alphabets = [''A''],
          special_characters = [''$''], sum_str = ''1'', concat_string = ''A''\<rparr> \<and>
   (\<exists>ns. map int_float (filter is_number_token (tokens [SStr ''a'', SStr ''1'', SStr ''$'']))
           = map Inr ns \<and>
         [''1''] = map str_int (filter (\<lambda>n. n mod 2 \<noteq> 0) ns) \<and>
         [] = map str_int (filter (\<lambda>n. n mod 2 = 0) ns) \<and>
         [''A''] = map upper (filter is_alphabet_token (tokens [SStr ''a'', SStr ''1'', SStr ''$''])) \<and>
         [''$''] = filter is_special_token (tokens [SStr ''a'', SStr ''1'', SStr ''$'']))"
proof -
  have h: "process_array [SStr ''a'', SStr ''1'', SStr ''$''] =
     Inr \<lparr>odd_numbers = [''1''], even_numbers = [], alphabets = [''A''],
          special_characters = [''$''], sum_str = ''1'', concat_string = ''A''\<rparr>"
    by code_simp
  from partition_when_returned[OF h] h show ?thesis by simp
qed

text \<open>
  C7. Each of the tokens \<open>-\<close>, \<open>.\<close> and the empty string fails the numeric check,
  fails the letters-only match, and is appended to special_characters unchanged: the loop
  body changes nothing else, and adding such a token anywhere in a list that has a result
  leaves odd_numbers, even_numbers, alphabets, sum and concat_string as they were and puts
  the token at its place in special_characters.
\<close>

theorem fallthrough_tokens:
  assumes "t \<in> {''-'', ''.'', ''''}"
  shows "\<not> is_number_token t \<and> \<not> re_match_alpha t \<and>
         classify_item st (SStr t) = Inr (st\<lparr>special_acc := special_acc st @ [t]\<rparr>) \<and>
         (process_array (xs @ ys) = Inr r \<longrightarrow>
            process_array (xs @ SStr t # ys) =
              Inr (r\<lparr>special_characters :=
                       filter is_special_token (tokens xs) @ t # filter is_special_token (tokens ys)\<rparr>))"
proof -
  from assms have nn: "\<not> is_number_token t" and na: "\<not> re_match_alpha t"
    using fallthrough_facts by auto
  have item: "classify_item st (SStr t) = Inr (st\<lparr>special_acc := special_acc st @ [t]\<rparr>)"
    using nn na by (simp add: classify_item_def)
  have "process_array (xs @ SStr t # ys) =
          Inr (r\<lparr>special_characters :=
                   filter is_special_token (tokens xs) @ t # filter is_special_token (tokens ys)\<rparr>)"
    if r: "process_array (xs @ ys) = Inr r"
  proof -
    from nn have nn': "\<not> is_number_token (py_str (SStr t))" by simp
    from insert_non_numeric[OF nn' r] obtain r' where
      r': "process_array (xs @ SStr t # ys) = Inr r'"
      and f': "odd_numbers r' = odd_numbers r" "even_numbers r' = even_numbers r"
        "sum_str r' = sum_str r"
        "alphabets r' = map upper (filter is_alphabet_token (tokens (xs @ SStr t # ys)))"
        "special_characters r' = filter is_special_token (tokens (xs @ SStr t # ys))"
        "concat_string r' = make_concat_string (filter is_alphabet_token (tokens (xs @ SStr t # ys)))"
      by blast
    from process_array_Inr[OF r] have f:
      "alphabets r = map upper (filter is_alphabet_token (tokens (xs @ ys)))"
      "concat_string r = make_concat_string (filter is_alphabet_token (tokens (xs @ ys)))"
      by blast+
    have sp: "is_special_token t" "\<not> is_alphabet_token t"
      using nn na by (simp_all add: is_special_token_def is_alphabet_token_def)
    have "r' = r\<lparr>special_characters :=
                   filter is_special_token (tokens xs) @ t # filter is_special_token (tokens ys)\<rparr>"
      using f f' sp by (intro result.equality) (simp_all add: tokens_def)
    with r' show ?thesis by simp
  qed
  with nn na item show ?thesis by blast
qed

text \<open>The theorem at the token \<open>-\<close> put between 1 and a.\<close>

theorem fallthrough_tokens_witness:
  "''-'' \<in> {''-'', ''.'', ''''} \<and> \<not> is_number_token ''-'' \<and> \<not> re_match_alpha ''-'' \<and>
   process_array [SStr ''1'', SStr ''a''] =
     Inr \<lparr>odd_numbers = [''1''], even_numbers = [], alphabets = [''A''],
          special_characters = [], sum_str = ''1'', concat_string = ''A''\<rparr> \<and>
   process_array [SStr ''1'', SStr ''-'', SStr ''a''] =
     Inr \<lparr>odd_numbers = [''1''], even_numbers = [], alphabets = [''A''],
          special_characters = [''-''], sum_str = ''1'', concat_string = ''A''\<rparr>"
proof -
  have m: "''-'' \<in> {''-'', ''.'', ''''}" by simp
  have h: "process_array ([SStr ''1''] @ [SStr ''a'']) =
     Inr \<lparr>odd_numbers = [''1''], even_numbers = [], alphabets = [''A''],
          special_characters = [], sum_str = ''1'', concat_string = ''A''\<rparr>"
    by code_simp
  have s: "filter is_special_token (tokens [SStr ''1'']) = []"
    "filter is_special_token (tokens [SStr ''a'']) = []"
    by code_simp+
  from fallthrough_tokens[OF m, of initial_locals "[SStr ''1'']" "[SStr ''a'']"] h s m
  show ?thesis by simp
qed

text \<open>
  C4, as stated, fails: the list holding the one token \<open>1-2\<close> has no alphabetic token,
  and there is no concat_string, empty or not, since the call raises.
\<close>

theorem concat_counterexample:
  "filter is_alphabet_token (tokens [SStr ''1-2'']) = [] \<and>
   process_array [SStr ''1-2''] =
     Inl (Exception
       (''Error processing array: could not convert string to float: '1-2'' @ [CHR 0x27]))"
  by code_simp

text \<open>
  C4, amended. For every input list on which \<open>process_array\<close> returns a result,
  concat_string is the concatenation of the alphabetic tokens in their original case and in
  input order, reversed character by character, with each character at an even index (from
  0) in upper case and each character at an odd index in lower case; and when the input
  has no alphabetic token, concat_string is the empty string.
\<close>

theorem concat_when_returned:
  assumes "process_array xs = Inr r"
  shows "concat_string r =
           alternate_case (rev (concat (filter is_alphabet_token (tokens xs)))) \<and>
         (filter is_alphabet_token (tokens xs) = [] \<longrightarrow> concat_string r = [])"
proof -
  from process_array_Inr[OF assms]
  have c: "concat_string r = make_concat_string (filter is_alphabet_token (tokens xs))"
    by blast
  then have "concat_string r =
           alternate_case (rev (concat (filter is_alphabet_token (tokens xs))))"
    by (simp only: make_concat_string_eq)
  moreover have "filter is_alphabet_token (tokens xs) = [] \<longrightarrow> concat_string r = []"
    using c by (simp add: make_concat_string_def)
  ultimately show ?thesis by blast
qed

text \<open>The theorem at the list A, ABcD, 7, DOE and at the list 7, $.\<close>

theorem concat_when_returned_witness:
  "process_array [SStr ''A'', SStr ''ABcD'', SStr ''7'', SStr ''DOE''] =
     Inr \<lparr>odd_numbers = [''7''], even_numbers = [], alphabets = [''A'', ''ABCD'', ''DOE''],
          special_characters = [], sum_str = ''7'', concat_string = ''EoDdCbAa''\<rparr> \<and>
   ''EoDdCbAa'' =
     alternate_case (rev (concat (filter is_alphabet_token
       (tokens [SStr ''A'', SStr ''ABcD'', SStr ''7'', SStr ''DOE'']))))  \<and>
   filter is_alphabet_token (tokens [SStr ''7'', SStr ''$'']) = [] \<and>
   process_array [SStr ''7'', SStr ''$''] =
     Inr \<lparr>odd_numbers = [''7''], even_numbers = [], alphabets = [],
          special_characters = [''$''], sum_str = ''7'', concat_string = []\<rparr>"
proof -
  have h1: "process_array [SStr ''A'', SStr ''ABcD'', SStr ''7'', SStr ''DOE''] =
     Inr \<lparr>odd_numbers = [''7''], even_numbers = [], alphabets = [''A'', ''ABCD'', ''DOE''],
          special_characters = [], sum_str = ''7'', concat_string = ''EoDdCbAa''\<rparr>"
    by code_simp
  have h2: "process_array [SStr ''7'', SStr ''$''] =
     Inr \<lparr>odd_numbers = [''7''], even_numbers = [], alphabets = [],
          special_characters = [''$''], sum_str = ''7'', concat_string = []\<rparr>"
    by code_simp
  have e: "filter is_alphabet_token (tokens [SStr ''7'', SStr ''$'']) = []"
    by code_simp
  from concat_when_returned[OF h1] concat_when_returned[OF h2] h1 h2 e
  show ?thesis by simp
qed

text \<open>
  C5, as stated, fails: both tokens of the list 7, \<open>3-\<close> pass the numeric check, and
  there is no sum field, since \<open>float\<close> rejects \<open>3-\<close> and the call raises.
\<close>

theorem sum_counterexample:
  "is_number_token ''7'' \<and> is_number_token ''3-'' \<and>
   process_array [SStr ''7'', SStr ''3-''] =
     Inl (Exception
       (''Error processing array: could not convert string to float: '3-'' @ [CHR 0x27]))"
  by code_simp

text \<open>
  C5, amended. For every input list on which \<open>process_array\<close> returns a result, the
  sum field is the decimal string of the sum of \<open>int(float(x))\<close> over the tokens \<open>x\<close> that
  pass the numeric check (\<open>ns\<close> are these values, in input order); for the empty input
  list the four bucket lists are empty, sum is 0 and concat_string is empty.
\<close>

theorem sum_when_returned:
  "(process_array xs = Inr r \<longrightarrow>
      (\<exists>ns. map int_float (filter is_number_token (tokens xs)) = map Inr ns \<and>
            sum_str r = str_int (sum_list ns))) \<and>
   process_array [] =
     Inr \<lparr>odd_numbers = [], even_numbers = [], alphabets = [], special_characters = [],
          sum_str = ''0'', concat_string = []\<rparr>"
proof -
  have "\<exists>ns. map int_float (filter is_number_token (tokens xs)) = map Inr ns \<and>
            sum_str r = str_int (sum_list ns)"
    if "process_array xs = Inr r"
    using process_array_Inr[OF that] by blast
  moreover have "process_array [] =
     Inr \<lparr>odd_numbers = [], even_numbers = [], alphabets = [], special_characters = [],
          sum_str = ''0'', concat_string = []\<rparr>"
    by code_simp
  ultimately show ?thesis by blast
qed

text \<open>The theorem at the list a, 1, 334, 4, R, $.\<close>

theorem sum_when_returned_witness:
  "process_array [SStr ''a'', SStr ''1'', SStr ''334'', SStr ''4'', SStr ''R'', SStr ''$''] =
     Inr \<lparr>odd_numbers = [''1''], even_numbers = [''334'', ''4''], alphabets = [''A'', ''R''],
          special_characters = [''$''], sum_str = ''339'', concat_string = ''Ra''\<rparr> \<and>
   (\<exists>ns. map int_float (filter is_number_token
            (tokens [SStr ''a'', SStr ''1'', SStr ''334'', SStr ''4'', SStr ''R'', SStr ''$'']))
          = map Inr ns \<and>
         ''339'' = str_int (sum_list ns))"
proof -
  have h: "process_array [SStr ''a'', SStr ''1'', SStr ''334'', SStr ''4'', SStr ''R'', SStr ''$''] =
     Inr \<lparr>odd_numbers = [''1''], even_numbers = [''334'', ''4''], alphabets = [''A'', ''R''],
          special_characters = [''$''], sum_str = ''339'', concat_string = ''Ra''\<rparr>"
    by code_simp
  from sum_when_returned[of "[SStr ''a'', SStr ''1'', SStr ''334'', SStr ''4'', SStr ''R'', SStr ''$'']"
      "\<lparr>odd_numbers = [''1''], even_numbers = [''334'', ''4''], alphabets = [''A'', ''R''],
          special_characters = [''$''], sum_str = ''339'', concat_string = ''Ra''\<rparr>"] h
  show ?thesis by simp
qed

subsection \<open>Negative numbers\<close>



subsection \<open>Booleans\<close>




subsection \<open>The errors of the endpoint\<close>

text \<open>
  The endpoint on a request that carries no array: whatever \<open>request.get_json()\<close> did,
  the answer is an error object that does not depend on the function called at line 88.
\<close>

lemma bfhl_with_inl: "bfhl_with process d (Inl e) = (Failure (exn_str e), 500)"
  by (simp add: bfhl_with_def)

lemma bfhl_with_falsy:
  "\<not> truthy rd \<Longrightarrow> bfhl_with process d (Inr rd) = (Failure ''Missing 'data' field in request'', 400)"
  by (simp add: bfhl_with_def)

lemma bfhl_with_scalar:
  "\<exists>msg code. \<forall>process. bfhl_with process d (Inr (JScalar x)) = (Failure msg, code)"
proof (cases "truthy (JScalar x)")
  case False
  then show ?thesis using bfhl_with_falsy by blast
next
  case True
  show ?thesis
  proof (cases x)
    case (SStr s)
    show ?thesis
    proof (cases "substring_in ''data'' s")
      case t: True
      with True SStr show ?thesis by (simp add: bfhl_with_def)
    next
      case f: False
      with True SStr show ?thesis by (simp add: bfhl_with_def)
    qed
  qed (use True in \<open>simp_all add: bfhl_with_def\<close>)
qed

lemma bfhl_with_list:
  "\<exists>msg code. \<forall>process. bfhl_with process d (Inr (JList xs)) = (Failure msg, code)"
proof (cases "xs \<noteq> [] \<and> SStr ''data'' \<in> set xs")
  case True
  then show ?thesis by (simp add: bfhl_with_def)
next
  case False
  then show ?thesis by (auto simp add: bfhl_with_def)
qed

lemma bfhl_with_no_key:
  "''data'' \<notin> set (map fst kvs) \<Longrightarrow>
   bfhl_with process d (Inr (JDict kvs)) = (Failure ''Missing 'data' field in request'', 400)"
  by (simp add: bfhl_with_def)

lemma bfhl_with_key:
  assumes "map_of kvs ''data'' = Some v"
  shows "bfhl_with process d (Inr (JDict kvs)) =
     (case v of
        JList data_array \<Rightarrow>
          (case process data_array of
             Inl e \<Rightarrow> (Failure (exn_str e), 500)
           | Inr processed_data \<Rightarrow>
               (Success (''john_doe_'' @ d) ''john@xyz.com'' ''ABCD123'' processed_data, 200))
      | other \<Rightarrow> (Failure (CHR 0x27 # ''data' must be an array''), 400))"
proof -
  from assms have k: "''data'' \<in> set (map fst kvs)" "kvs \<noteq> []"
    by (auto dest: map_of_SomeD intro: rev_image_eqI)
  show ?thesis
    unfolding bfhl_with_def using k assms
    by (cases v) simp_all
qed

lemma bfhl_with_not_list:
  assumes "map_of kvs ''data'' = Some v" "\<not> isinstance_list v"
  shows "bfhl_with process d (Inr (JDict kvs)) = (Failure (CHR 0x27 # ''data' must be an array''), 400)"
  using assms(2) unfolding bfhl_with_key[OF assms(1)] by (cases v) simp_all

lemma bfhl_with_no_array:
  assumes "data_array_of got = None"
  shows "\<exists>msg code. \<forall>process. bfhl_with process d got = (Failure msg, code)"
proof (cases got)
  case (Inl e)
  then show ?thesis using bfhl_with_inl by blast
next
  case (Inr rd)
  show ?thesis
  proof (cases rd)
    case (JScalar x)
    with Inr show ?thesis using bfhl_with_scalar by simp
  next
    case (JList xs)
    with Inr show ?thesis using bfhl_with_list by simp
  next
    case (JDict kvs)
    show ?thesis
    proof (cases "map_of kvs ''data''")
      case None
      then have "''data'' \<notin> set (map fst kvs)" by (simp add: map_of_eq_None_iff)
      from bfhl_with_no_key[OF this] Inr JDict show ?thesis by blast
    next
      case (Some v)
      with assms Inr JDict have "\<not> isinstance_list v"
        by (cases v) (simp_all add: data_array_of_def)
      from bfhl_with_not_list[OF Some this] Inr JDict show ?thesis by blast
    qed
  qed
qed

text \<open>
  C8. When the request carries no array under \<open>data\<close> (the body is missing or could not
  be read, it has no key \<open>data\<close>, or \<open>data\<close> is not a list) the endpoint answers with an
  error object, \<open>is_success\<close> false and an error string, and the answer is the same
  whatever function stands at line 88: the classification is not called. A missing body
  (\<open>None\<close>) and a dictionary without the key \<open>data\<close> give status 400 and the message
  \<open>Missing 'data' field in request\<close>; a \<open>data\<close> that is not a list gives status 400 and
  \<open>'data' must be an array\<close>. When \<open>data\<close> is a list on which \<open>process_array\<close> raises,
  the exception is caught and the answer is one error object, status 500, whose error
  string is the message of the exception, which begins with \<open>Error processing array: \<close>.
\<close>

theorem endpoint_errors:
  "(data_array_of got = None \<longrightarrow>
      (\<exists>msg. error_field (fst (bfhl_with process d got)) = Some msg) \<and>
      \<not> is_success (fst (bfhl_with process d got)) \<and>
      bfhl_with process d got = bfhl_with process2 d got) \<and>
   bfhl d (Inr (JScalar SNone)) = (Failure ''Missing 'data' field in request'', 400) \<and>
   (''data'' \<notin> set (map fst nokey) \<longrightarrow>
      bfhl d (Inr (JDict nokey)) = (Failure ''Missing 'data' field in request'', 400)) \<and>
   (map_of nolist ''data'' = Some v \<and> \<not> isinstance_list v \<longrightarrow>
      bfhl d (Inr (JDict nolist)) = (Failure (CHR 0x27 # ''data' must be an array''), 400)) \<and>
   (map_of req ''data'' = Some (JList items) \<and> process_array items = Inl e \<longrightarrow>
      bfhl d (Inr (JDict req)) = (Failure (exn_str e), 500) \<and>
      (\<exists>m. exn_str e = ''Error processing array: '' @ m))"
proof -
  have p1: "(\<exists>msg. error_field (fst (bfhl_with process d got)) = Some msg) \<and>
      \<not> is_success (fst (bfhl_with process d got)) \<and>
      bfhl_with process d got = bfhl_with process2 d got"
    if "data_array_of got = None"
  proof -
    from bfhl_with_no_array[OF that, of d] obtain msg code
      where a: "\<And>process. bfhl_with process d got = (Failure msg, code)" by blast
    show ?thesis by (simp add: a)
  qed
  have p2: "bfhl d (Inr (JScalar SNone)) = (Failure ''Missing 'data' field in request'', 400)"
    by (simp add: bfhl_def bfhl_with_falsy)
  have p3: "bfhl d (Inr (JDict nokey)) = (Failure ''Missing 'data' field in request'', 400)"
    if "''data'' \<notin> set (map fst nokey)"
    using bfhl_with_no_key[OF that] by (simp add: bfhl_def)
  have p4: "bfhl d (Inr (JDict nolist)) = (Failure (CHR 0x27 # ''data' must be an array''), 400)"
    if "map_of nolist ''data'' = Some v" "\<not> isinstance_list v"
    using bfhl_with_not_list[OF that] by (simp add: bfhl_def)
  have p5: "bfhl d (Inr (JDict req)) = (Failure (exn_str e), 500) \<and>
      (\<exists>m. exn_str e = ''Error processing array: '' @ m)"
    if h: "map_of req ''data'' = Some (JList items)" "process_array items = Inl e"
  proof -
    from process_array_raises[OF h(2)] obtain m
      where "e = Exception (''Error processing array: '' @ m)" by blast
    then have "exn_str e = ''Error processing array: '' @ m" by simp
    moreover have "bfhl d (Inr (JDict req)) = (Failure (exn_str e), 500)"
      unfolding bfhl_def bfhl_with_key[OF h(1)] using h(2) by simp
    ultimately show ?thesis by blast
  qed
  from p1 p2 p3 p4 p5 show ?thesis by blast
qed

text \<open>
  The theorem of C8 at four requests: the list \<open>["data"]\<close> as the body, a dictionary with
  the key \<open>Data\<close> only, \<open>{"data": "1"}\<close> and \<open>{"data": ["--1"]}\<close>.
\<close>

theorem endpoint_errors_witness:
  "data_array_of (Inr (JList [SStr ''data''])) = None \<and>
   (\<exists>msg. error_field (fst (bfhl_with process_array ''04112026'' (Inr (JList [SStr ''data''])))) = Some msg) \<and>
   \<not> is_success (fst (bfhl_with process_array ''04112026'' (Inr (JList [SStr ''data''])))) \<and>
   bfhl_with process_array ''04112026'' (Inr (JList [SStr ''data''])) =
     bfhl_with (\<lambda>data_array. Inl (Exception [])) ''04112026'' (Inr (JList [SStr ''data''])) \<and>
   ''data'' \<notin> set (map fst [(''Data'', JList [SStr ''1''])]) \<and>
   bfhl ''04112026'' (Inr (JDict [(''Data'', JList [SStr ''1''])])) =
     (Failure ''Missing 'data' field in request'', 400) \<and>
   map_of [(''data'', JScalar (SStr ''1''))] ''data'' = Some (JScalar (SStr ''1'')) \<and>
   \<not> isinstance_list (JScalar (SStr ''1'')) \<and>
   bfhl ''04112026'' (Inr (JDict [(''data'', JScalar (SStr ''1''))])) =
     (Failure (CHR 0x27 # ''data' must be an array''), 400) \<and>
   map_of [(''data'', JList [SStr ''--1''])] ''data'' = Some (JList [SStr ''--1'']) \<and>
   process_array [SStr ''--1''] =
     Inl (Exception
       (''Error processing array: could not convert string to float: '--1'' @ [CHR 0x27])) \<and>
   bfhl ''04112026'' (Inr (JDict [(''data'', JList [SStr ''--1''])])) =
     (Failure (exn_str (Exception
        (''Error processing array: could not convert string to float: '--1'' @ [CHR 0x27]))), 500)"
proof -
  have h1: "data_array_of (Inr (JList [SStr ''data''])) = None"
    by (simp add: data_array_of_def)
  have h3: "''data'' \<notin> set (map fst [(''Data'', JList [SStr ''1''])])" by simp
  have h4: "map_of [(''data'', JScalar (SStr ''1''))] ''data'' = Some (JScalar (SStr ''1''))"
    "\<not> isinstance_list (JScalar (SStr ''1''))" by simp_all
  have h5: "map_of [(''data'', JList [SStr ''--1''])] ''data'' = Some (JList [SStr ''--1''])"
    by simp
  have h6: "process_array [SStr ''--1''] =
     Inl (Exception
       (''Error processing array: could not convert string to float: '--1'' @ [CHR 0x27]))"
    by code_simp
  from endpoint_errors[where got = "Inr (JList [SStr ''data''])" and process = process_array
      and ?process2.0 = "\<lambda>data_array. Inl (Exception [])" and d = "''04112026''"
      and nokey = "[(''Data'', JList [SStr ''1''])]"
      and nolist = "[(''data'', JScalar (SStr ''1''))]" and v = "JScalar (SStr ''1'')"
      and req = "[(''data'', JList [SStr ''--1''])]" and items = "[SStr ''--1'']"
      and e = "Exception
       (''Error processing array: could not convert string to float: '--1'' @ [CHR 0x27])"]
    h1 h3 h4 h5 h6
  show ?thesis by blast
qed

end
